theory Spec2Isabelle
  imports Main "HOL-Library.Sublist"
begin

section \<open>Python strings\<close>

text \<open>
  A Python \<open>str\<close> is modelled as a \<^typ>\<open>string\<close>: each \<^typ>\<open>char\<close> stands for one code
  point below 256. \<open>s.startswith(p)\<close> is \<^term>\<open>prefix p s\<close>, \<open>s.endswith(p)\<close> is
  \<^term>\<open>suffix p s\<close>, \<open>p in s\<close> is \<^term>\<open>sublist p s\<close>, \<open>s[n:]\<close> is \<^term>\<open>drop n s\<close>.
\<close>

definition py_isspace :: "char \<Rightarrow> bool" where
  \<comment> \<open>\<open>str.isspace\<close> on one code point; the regular expression class \<open>\s\<close> is the same set\<close>
  "py_isspace c \<longleftrightarrow>
     (let n = (of_char c :: nat)
      in (9 \<le> n \<and> n \<le> 13) \<or> (28 \<le> n \<and> n \<le> 32) \<or> n = 133 \<or> n = 160)"

definition py_strip :: "string \<Rightarrow> string" where
  \<comment> \<open>\<open>str.strip()\<close>: whitespace removed at both ends\<close>
  "py_strip s = rev (dropWhile py_isspace (rev (dropWhile py_isspace s)))"

definition py_lower_char :: "char \<Rightarrow> char" where
  \<comment> \<open>\<open>str.lower()\<close> on one code point below 256\<close>
  "py_lower_char c =
     (let n = (of_char c :: nat)
      in if (65 \<le> n \<and> n \<le> 90) \<or> (192 \<le> n \<and> n \<le> 222 \<and> n \<noteq> 215)
         then char_of (n + 32) else c)"

definition py_lower :: "string \<Rightarrow> string" where
  "py_lower s = map py_lower_char s"

function py_replace :: "string \<Rightarrow> string \<Rightarrow> string \<Rightarrow> string" where
  \<comment> \<open>\<open>s.replace(old, new)\<close> for a non-empty \<open>old\<close>: the occurrences of \<open>old\<close> are found from
      left to right, without overlap\<close>
  "py_replace old new [] = []"
| "py_replace old new (c # cs) =
     (if old \<noteq> [] \<and> prefix old (c # cs)
      then new @ py_replace old new (drop (length old) (c # cs))
      else c # py_replace old new cs)"
  by pat_completeness auto
termination
  by (relation "measure (\<lambda>(old, new, s). length s)") (auto simp: neq_Nil_conv)

section \<open>Removing reasoning markers\<close>

text \<open>
  \<open>re.sub(r"<think>.*?</think>", "", text, flags=re.DOTALL)\<close> scans the text from left to
  right. At a position where the opening marker starts and some closing marker follows
  it, the match runs to the end of the first such closing marker (the quantifier is
  lazy, and with \<open>DOTALL\<close> the dot matches every character); the match is replaced by the
  empty string and the scan goes on behind it. Elsewhere the character is kept.
  \<open>re_sub_span opn cls\<close> is this substitution for the pattern \<open>opn.*?cls\<close> with two
  literal, non-empty markers.
\<close>

fun find_after :: "string \<Rightarrow> string \<Rightarrow> string option" where
  \<comment> \<open>the text behind the first occurrence of \<open>pat\<close>, if there is one\<close>
  "find_after pat [] = (if pat = [] then Some [] else None)"
| "find_after pat (c # cs) =
     (if prefix pat (c # cs) then Some (drop (length pat) (c # cs)) else find_after pat cs)"

definition span_match :: "string \<Rightarrow> string \<Rightarrow> string \<Rightarrow> string option" where
  \<comment> \<open>a match of \<open>opn.*?cls\<close> at the start of the text: what is left behind the match\<close>
  "span_match opn cls s =
     (if opn \<noteq> [] \<and> prefix opn s then find_after cls (drop (length opn) s) else None)"

lemma find_after_length: "find_after pat s = Some r \<Longrightarrow> length r \<le> length s"
  by (induction s) (auto split: if_splits)

lemma span_match_length:
  assumes "span_match opn cls s = Some r"
  shows "length r < length s"
proof -
  from assms have opn: "opn \<noteq> []" "prefix opn s"
    and r: "find_after cls (drop (length opn) s) = Some r"
    by (auto simp: span_match_def split: if_splits)
  from opn have "0 < length opn" "length opn \<le> length s"
    by (auto simp: prefix_length_le)
  moreover from r have "length r \<le> length s - length opn"
    by (auto dest: find_after_length)
  ultimately show ?thesis by linarith
qed

function re_sub_span :: "string \<Rightarrow> string \<Rightarrow> string \<Rightarrow> string" where
  "re_sub_span opn cls [] = []"
| "re_sub_span opn cls (c # cs) =
     (case span_match opn cls (c # cs) of
        Some rest \<Rightarrow> re_sub_span opn cls rest
      | None \<Rightarrow> c # re_sub_span opn cls cs)"
  by pat_completeness auto
termination
  by (relation "measure (\<lambda>(opn, cls, s). length s)") (auto dest: span_match_length)

definition strip_think_tags :: "string \<Rightarrow> string" where
  \<comment> \<open>\<open>composition.py\<close>\<close>
  "strip_think_tags text = re_sub_span ''<think>'' ''</think>'' text"

definition app_strip_think_tags :: "string \<Rightarrow> string" where
  \<comment> \<open>the copy in \<open>app.py\<close>, with its guard \<open>if not text: return ""\<close>\<close>
  "app_strip_think_tags text = (if text = [] then [] else strip_think_tags text)"

definition has_span :: "string \<Rightarrow> string \<Rightarrow> string \<Rightarrow> bool" where
  \<comment> \<open>the text has an opening marker and, somewhere behind it, a closing marker\<close>
  "has_span opn cls s \<longleftrightarrow> (\<exists>a b c. s = a @ opn @ b @ cls @ c)"

section \<open>Python values\<close>

text \<open>
  \<open>json.loads\<close> produces \<open>None\<close>, booleans, integers, floats, strings, lists and
  dictionaries with string keys. No arithmetic is done on a float by this program: it is
  only printed, so a float is represented by its \<open>repr\<close>. A dictionary is an association
  list in insertion order, read with \<^const>\<open>map_of\<close>.
\<close>

datatype pyval =
    PNone
  | PBool bool
  | PInt int
  | PFloat string
  | PStr string
  | PList "pyval list"
  | PDict "(string \<times> pyval) list"

abbreviation bs :: string where
  \<comment> \<open>the backslash\<close>
  "bs \<equiv> [CHR 0x5C]"

abbreviation sq :: string where
  \<comment> \<open>the single quote\<close>
  "sq \<equiv> [CHR 0x27]"

abbreviation dq :: string where
  \<comment> \<open>the double quote\<close>
  "dq \<equiv> [CHR 0x22]"

fun py_join :: "string \<Rightarrow> string list \<Rightarrow> string" where
  \<comment> \<open>\<open>sep.join(xs)\<close>\<close>
  "py_join sep [] = []"
| "py_join sep [x] = x"
| "py_join sep (x # y # ys) = x @ sep @ py_join sep (y # ys)"

definition digit_char :: "nat \<Rightarrow> char" where
  "digit_char n = (''0123456789abcdef'' ! (n mod 16))"

fun str_nat :: "nat \<Rightarrow> string" where
  "str_nat n = (if n < 10 then [digit_char n] else str_nat (n div 10) @ [digit_char (n mod 10)])"

definition str_int :: "int \<Rightarrow> string" where
  \<comment> \<open>\<open>str\<close> of an integer\<close>
  "str_int i = (if i < 0 then ''-'' @ str_nat (nat (- i)) else str_nat (nat i))"

definition py_isprintable :: "char \<Rightarrow> bool" where
  \<comment> \<open>\<open>str.isprintable\<close> on one code point below 256\<close>
  "py_isprintable c \<longleftrightarrow>
     (let n = (of_char c :: nat)
      in (32 \<le> n \<and> n < 127) \<or> (161 \<le> n \<and> n \<noteq> 173))"

definition repr_char :: "char \<Rightarrow> char \<Rightarrow> string" where
  \<comment> \<open>one character inside the \<open>repr\<close> of a string that is quoted with \<open>q\<close>\<close>
  "repr_char q c =
     (if c = CHR 0x5C then bs @ bs
      else if c = q then bs @ [q]
      else if c = CHR 0x0A then bs @ ''n''
      else if c = CHR 0x0D then bs @ ''r''
      else if c = CHR 0x09 then bs @ ''t''
      else if py_isprintable c then [c]
      else bs @ ''x'' @ [digit_char (of_char c div 16), digit_char (of_char c mod 16)])"

definition repr_str :: "string \<Rightarrow> string" where
  \<comment> \<open>\<open>repr\<close> of a string: double quotes only when it has a single quote and no double
      quote\<close>
  "repr_str s =
     (let q = (if CHR 0x27 \<in> set s \<and> CHR 0x22 \<notin> set s then CHR 0x22 else CHR 0x27)
      in [q] @ concat (map (repr_char q) s) @ [q])"

fun py_repr :: "pyval \<Rightarrow> string" where
  "py_repr PNone = ''None''"
| "py_repr (PBool b) = (if b then ''True'' else ''False'')"
| "py_repr (PInt i) = str_int i"
| "py_repr (PFloat r) = r"
| "py_repr (PStr s) = repr_str s"
| "py_repr (PList xs) = ''['' @ py_join '', '' (map py_repr xs) @ '']''"
| "py_repr (PDict kvs) =
     ''{'' @ py_join '', '' (map (\<lambda>(k, v). repr_str k @ '': '' @ py_repr v) kvs) @ ''}''"

fun py_str :: "pyval \<Rightarrow> string" where
  \<comment> \<open>\<open>str(v)\<close>, which is also what \<open>{v}\<close> gives in an f-string\<close>
  "py_str (PStr s) = s"
| "py_str v = py_repr v"

fun py_type_name :: "pyval \<Rightarrow> string" where
  "py_type_name PNone = ''NoneType''"
| "py_type_name (PBool b) = ''bool''"
| "py_type_name (PInt i) = ''int''"
| "py_type_name (PFloat r) = ''float''"
| "py_type_name (PStr s) = ''str''"
| "py_type_name (PList xs) = ''list''"
| "py_type_name (PDict kvs) = ''dict''"

fun is_dict :: "pyval \<Rightarrow> bool" where
  \<comment> \<open>\<open>isinstance(v, dict)\<close>\<close>
  "is_dict (PDict kvs) = True"
| "is_dict v = False"

subsection \<open>Exceptions\<close>

text \<open>
  An exception is an instance of \<open>Exception\<close>: its class and its message. The messages
  of the interpreter's own errors are CPython's; nothing below depends on their wording.
\<close>

datatype exn =
    KeyError string
  | TypeError string
  | AttributeError string
  | ValueError string
  | OtherError string

fun exn_str :: "exn \<Rightarrow> string" where
  \<comment> \<open>\<open>str(e)\<close>; a \<open>KeyError\<close> prints the \<open>repr\<close> of the key\<close>
  "exn_str (KeyError k) = repr_str k"
| "exn_str (TypeError m) = m"
| "exn_str (AttributeError m) = m"
| "exn_str (ValueError m) = m"
| "exn_str (OtherError m) = m"

fun dict_get :: "pyval \<Rightarrow> string \<Rightarrow> pyval \<Rightarrow> exn + pyval" where
  \<comment> \<open>\<open>d.get(key, default)\<close>\<close>
  "dict_get (PDict kvs) key dflt = Inr (case map_of kvs key of Some v \<Rightarrow> v | None \<Rightarrow> dflt)"
| "dict_get v key dflt =
     Inl (AttributeError (sq @ py_type_name v @ sq @ '' object has no attribute '' @ sq @ ''get'' @ sq))"

fun py_getitem :: "pyval \<Rightarrow> string \<Rightarrow> exn + pyval" where
  \<comment> \<open>\<open>v[key]\<close> with a string key\<close>
  "py_getitem (PDict kvs) key =
     (case map_of kvs key of Some v \<Rightarrow> Inr v | None \<Rightarrow> Inl (KeyError key))"
| "py_getitem (PStr s) key =
     Inl (TypeError (''string indices must be integers, not '' @ sq @ ''str'' @ sq))"
| "py_getitem (PList xs) key =
     Inl (TypeError ''list indices must be integers or slices, not str'')"
| "py_getitem v key =
     Inl (TypeError (sq @ py_type_name v @ sq @ '' object is not subscriptable''))"

fun py_iter :: "pyval \<Rightarrow> exn + pyval list" where
  \<comment> \<open>the items that \<open>for x in v\<close> runs through\<close>
  "py_iter (PList xs) = Inr xs"
| "py_iter (PStr s) = Inr (map (\<lambda>c. PStr [c]) s)"
| "py_iter (PDict kvs) = Inr (map (\<lambda>(k, v). PStr k) kvs)"
| "py_iter v = Inl (TypeError (sq @ py_type_name v @ sq @ '' object is not iterable''))"

fun str_replace_method :: "pyval \<Rightarrow> string \<Rightarrow> string \<Rightarrow> exn + string" where
  \<comment> \<open>\<open>v.replace(old, new)\<close>: only a string has the method\<close>
  "str_replace_method (PStr s) old new = Inr (py_replace old new s)"
| "str_replace_method v old new =
     Inl (AttributeError
       (sq @ py_type_name v @ sq @ '' object has no attribute '' @ sq @ ''replace'' @ sq))"

fun map_exn :: "('a \<Rightarrow> exn + 'b) \<Rightarrow> 'a list \<Rightarrow> exn + 'b list" where
  \<comment> \<open>a loop that builds a list and stops at the first exception\<close>
  "map_exn f [] = Inr []"
| "map_exn f (x # xs) =
     (case f x of
        Inl e \<Rightarrow> Inl e
      | Inr y \<Rightarrow> (case map_exn f xs of Inl e \<Rightarrow> Inl e | Inr ys \<Rightarrow> Inr (y # ys)))"

section \<open>The schedule composer\<close>

subsection \<open>Parsing the model's answer\<close>

text \<open>
  \<open>json.loads\<close> belongs to the standard library and is a parameter: it gives the parsed
  value, or the message of the \<open>JSONDecodeError\<close> it raises.
\<close>

definition strip_code_fence :: "string \<Rightarrow> string" where
  \<comment> \<open>the first lines of \<open>_parse_json_safely\<close>: the text that is handed to the parser\<close>
  "strip_code_fence text0 =
     (let text = py_strip text0;
          text = (if prefix ''```json'' text then drop 7 text else text);
          text = (if prefix ''```'' text then drop 3 text else text);
          text = (if suffix ''```'' text then take (length text - 3) text else text)
      in text)"

definition parse_json_safely :: "(string \<Rightarrow> string + pyval) \<Rightarrow> string \<Rightarrow> pyval" where
  "parse_json_safely loads text0 =
     (let text = strip_code_fence text0
      in case loads text of
           Inr v \<Rightarrow> v
         | Inl msg \<Rightarrow>
             PDict [(''original_expression'', PStr ''Error parsing''),
                    (''schedule_logic'', PStr ''Linear''),
                    (''score'', PList []),
                    (''math_narrative'', PStr (''Error: '' @ msg)),
                    (''raw_output'', PStr text)])"

subsection \<open>Rendering the report\<close>

definition table_row :: "pyval \<Rightarrow> exn + string" where
  \<comment> \<open>the body of the loop over \<open>score\<close> that writes the table\<close>
  "table_row track =
     (case py_getitem track ''formula'' of Inl e \<Rightarrow> Inl e | Inr formula \<Rightarrow>
      case str_replace_method formula ''|'' (bs @ ''|'') of Inl e \<Rightarrow> Inl e | Inr clean_formula \<Rightarrow>
      case py_getitem track ''voice'' of Inl e \<Rightarrow> Inl e | Inr voice \<Rightarrow>
      case py_getitem track ''symbol'' of Inl e \<Rightarrow> Inl e | Inr symbol \<Rightarrow>
      case py_getitem track ''mass'' of Inl e \<Rightarrow> Inl e | Inr mass \<Rightarrow>
        Inr (''| '' @ py_str voice @ '' | `'' @ py_str symbol @ ''` | $'' @ clean_formula
             @ ''$ | '' @ py_str mass @ '' |\<newline>''))"

definition mass_formula :: "pyval \<Rightarrow> exn + string \<times> string" where
  \<comment> \<open>\<open>track['mass']\<close> and \<open>track['formula']\<close> as an f-string prints them\<close>
  "mass_formula track =
     (case py_getitem track ''mass'' of Inl e \<Rightarrow> Inl e | Inr mass \<Rightarrow>
      case py_getitem track ''formula'' of Inl e \<Rightarrow> Inl e | Inr formula \<Rightarrow>
        Inr (py_str mass, py_str formula))"

definition orbital_term :: "nat \<times> pyval \<Rightarrow> exn + string" where
  "orbital_term it =
     (case mass_formula (snd it) of Inl e \<Rightarrow> Inl e | Inr (m, f) \<Rightarrow>
        Inr (m @ '' '' @ bs @ ''cdot '' @ bs @ (if fst it mod 2 = 0 then ''sin'' else ''cos'')
             @ ''('' @ bs @ ''omega t) '' @ bs @ ''cdot ['' @ f @ '']''))"

definition drag_first_term :: "pyval \<Rightarrow> exn + string" where
  "drag_first_term t0 =
     (case mass_formula t0 of Inl e \<Rightarrow> Inl e | Inr (m, f) \<Rightarrow>
        Inr (''('' @ m @ '' '' @ bs @ ''cdot e^{-'' @ bs @ ''lambda t}) '' @ bs @ ''cdot [''
             @ f @ '']''))"

definition drag_term :: "pyval \<Rightarrow> exn + string" where
  "drag_term track =
     (case mass_formula track of Inl e \<Rightarrow> Inl e | Inr (m, f) \<Rightarrow>
        Inr (''('' @ m @ '' '' @ bs @ ''cdot (1-e^{-'' @ bs @ ''lambda t})) '' @ bs
             @ ''cdot ['' @ f @ '']''))"

definition linear_term :: "pyval \<Rightarrow> exn + string" where
  "linear_term track =
     (case mass_formula track of Inl e \<Rightarrow> Inl e | Inr (m, f) \<Rightarrow>
        Inr (m @ '' '' @ bs @ ''cdot ['' @ f @ '']''))"

definition adversarial_term :: "pyval \<Rightarrow> exn + string" where
  "adversarial_term track =
     (case mass_formula track of Inl e \<Rightarrow> Inl e | Inr (m, f) \<Rightarrow>
        Inr ('' - '' @ m @ '' '' @ bs @ ''cdot ['' @ f @ '']''))"

definition first_rest_terms ::
  "(pyval \<Rightarrow> exn + string) \<Rightarrow> (pyval \<Rightarrow> exn + string) \<Rightarrow> pyval list \<Rightarrow> exn + string list"
where
  \<comment> \<open>\<open>if len(score) > 0:\<close> a term for \<open>score[0]\<close>, then one for each track of \<open>score[1:]\<close>\<close>
  "first_rest_terms f g score =
     (case score of
        [] \<Rightarrow> Inr []
      | t0 # rest \<Rightarrow>
          (case f t0 of Inl e \<Rightarrow> Inl e | Inr x \<Rightarrow>
           case map_exn g rest of Inl e \<Rightarrow> Inl e | Inr xs \<Rightarrow> Inr (x # xs)))"

definition master_equation :: "pyval \<Rightarrow> pyval list \<Rightarrow> exn + string" where
  \<comment> \<open>the master equation, chosen by \<open>logic\<close>\<close>
  "master_equation logic score =
     (if logic = PStr ''Orbital'' then
        (case map_exn orbital_term (enumerate 0 score) of Inl e \<Rightarrow> Inl e | Inr terms \<Rightarrow>
           Inr (''$$ J('' @ bs @ ''theta) = '' @ bs @ ''sum_{t} ('' @ py_join '' + '' terms
                @ '') $$''))
      else if logic = PStr ''Drag'' then
        (case first_rest_terms drag_first_term drag_term score of Inl e \<Rightarrow> Inl e | Inr terms \<Rightarrow>
           Inr (''$$ J('' @ bs @ ''theta) = '' @ bs @ ''int ('' @ py_join '' + '' terms
                @ '') dt $$''))
      else if logic = PStr ''Adversarial'' then
        (case first_rest_terms linear_term adversarial_term score of Inl e \<Rightarrow> Inl e | Inr terms \<Rightarrow>
           Inr (''$$ J('' @ bs @ ''theta) = '' @ bs @ ''max_'' @ bs @ ''pi ('' @ py_join [] terms
                @ '') $$''))
      else
        (case map_exn linear_term score of Inl e \<Rightarrow> Inl e | Inr terms \<Rightarrow>
           Inr (''$$ J('' @ bs @ ''theta) = '' @ py_join '' + '' terms @ '' $$'')))"

definition report_head :: "pyval \<Rightarrow> pyval \<Rightarrow> pyval \<Rightarrow> string" where
  \<comment> \<open>the title line, the narrative line and the head of the table\<close>
  "report_head logic narrative freq =
     ''### Cognitive Schedule: **'' @ py_str logic @ ''**\<newline>''
     @ ''*'' @ py_str narrative @ ''* (Global Accel: $'' @ bs @ ''omega='' @ py_str freq
     @ ''$)\<newline>\<newline>''
     @ ''| Function | Objective Class | Math Form | Mass ($m$) |\<newline>''
     @ ''| :--- | :--- | :--- | :---: |\<newline>''"

definition format_latex_report :: "pyval \<Rightarrow> exn + string" where
  "format_latex_report composition =
     (case dict_get composition ''schedule_logic'' (PStr ''Linear'') of Inl e \<Rightarrow> Inl e | Inr logic \<Rightarrow>
      case dict_get composition ''math_narrative'' (PStr []) of Inl e \<Rightarrow> Inl e | Inr narrative \<Rightarrow>
      case dict_get composition ''global_frequency'' (PFloat ''1.0'') of Inl e \<Rightarrow> Inl e | Inr freq \<Rightarrow>
      case dict_get composition ''score'' (PList []) of Inl e \<Rightarrow> Inl e | Inr score_val \<Rightarrow>
      case py_iter score_val of Inl e \<Rightarrow> Inl e | Inr score \<Rightarrow>
      case map_exn table_row score of Inl e \<Rightarrow> Inl e | Inr rows \<Rightarrow>
      case master_equation logic score of Inl e \<Rightarrow> Inl e | Inr equation \<Rightarrow>
        Inr (report_head logic narrative freq @ concat rows
             @ ''\<newline>**Intercalation Dynamics:**\<newline>'' @ equation))"

fun is_track :: "pyval \<Rightarrow> bool" where
  \<comment> \<open>an entry of \<open>score\<close> as the data model has it: a dictionary with the fields \<open>voice\<close>,
      \<open>symbol\<close>, \<open>mass\<close> and \<open>formula\<close>, the last one a string\<close>
  "is_track (PDict kvs) =
     (map_of kvs ''voice'' \<noteq> None \<and> map_of kvs ''symbol'' \<noteq> None \<and> map_of kvs ''mass'' \<noteq> None
      \<and> (case map_of kvs ''formula'' of Some (PStr f) \<Rightarrow> True | _ \<Rightarrow> False))"
| "is_track v = False"


section \<open>The cleanup of the report\<close>

text \<open>
  The search \<open>re.search(r"(?si)(.*?)(?:[\*\#\s]*Intercalation Dynamics\s*:?[\*\#\s]*)(.*)", text)\<close>
  starts at the first character. Group 1 is lazy and, with \<open>(?s)\<close>, grows over any
  character, so it ends at the first position from which the header matches: a run of
  \<open>*\<close>, \<open>#\<close> and whitespace, taken as far as it goes (the heading starts with a
  letter, so no shorter run can match), then the heading in any case (\<open>(?i)\<close>), then
  whitespace, one optional colon and another run of \<open>*\<close>, \<open>#\<close> and whitespace. Group 2
  is all that follows.
\<close>

definition is_deco :: "char \<Rightarrow> bool" where
  \<comment> \<open>the class \<open>[\*\#\s]\<close>\<close>
  "is_deco c \<longleftrightarrow> c = CHR ''*'' \<or> c = CHR ''#'' \<or> py_isspace c"

definition header_match :: "string \<Rightarrow> string option" where
  \<comment> \<open>the header at the start of the text: group 2, the text behind the header\<close>
  "header_match s =
     (let r = dropWhile is_deco s
      in if prefix (py_lower ''Intercalation Dynamics'') (py_lower r)
         then (let r = dropWhile py_isspace (drop 22 r);
                   r = (if prefix '':'' r then drop 1 r else r)
               in Some (dropWhile is_deco r))
         else None)"

fun intercalation_search :: "string \<Rightarrow> (string \<times> string) option" where
  \<comment> \<open>groups 1 and 2 of the match, if the pattern is found\<close>
  "intercalation_search [] =
     (case header_match [] of Some g2 \<Rightarrow> Some ([], g2) | None \<Rightarrow> None)"
| "intercalation_search (c # cs) =
     (case header_match (c # cs) of
        Some g2 \<Rightarrow> Some ([], g2)
      | None \<Rightarrow>
          (case intercalation_search cs of
             Some (g1, g2) \<Rightarrow> Some (c # g1, g2)
           | None \<Rightarrow> None))"

text \<open>
  The fallback \<open>re.sub(r'`(\$+.*?\$+)`', r'\1', text)\<close> removes the two backquotes around
  a piece of text that starts and ends with a dollar and has no line break (the dot does
  not match one here). At a backquote followed by \<open>n\<close> dollars, the first \<open>\$+\<close> takes
  all \<open>n\<close>; the lazy \<open>.*?\<close> then grows one character at a time, up to a line break,
  until a run of dollars ends at a backquote. If there is no such place, the first
  \<open>\$+\<close> gives one dollar back, which lets the match end at a backquote that comes
  right behind the \<open>n\<close> dollars, when \<open>n\<close> is at least 2.
\<close>

definition is_dollar :: "char \<Rightarrow> bool" where
  "is_dollar c \<longleftrightarrow> c = CHR ''$''"

definition dollar_run_close :: "string \<Rightarrow> (string \<times> string) option" where
  \<comment> \<open>\<open>\$+`\<close> at the start of the text: the dollars, and the text behind the backquote\<close>
  "dollar_run_close s =
     (if prefix ''$'' s \<and> prefix ''`'' (dropWhile is_dollar s)
      then Some (takeWhile is_dollar s, drop 1 (dropWhile is_dollar s))
      else None)"

fun dollars_close :: "string \<Rightarrow> (string \<times> string) option" where
  \<comment> \<open>\<open>.*?\$+`\<close> at the start of the text: what the first two parts match, and the text
      behind the backquote\<close>
  "dollars_close [] = None"
| "dollars_close (c # cs) =
     (case dollar_run_close (c # cs) of
        Some m \<Rightarrow> Some m
      | None \<Rightarrow>
          if c = CHR 0x0A then None
          else (case dollars_close cs of
                  Some (g, rest) \<Rightarrow> Some (c # g, rest)
                | None \<Rightarrow> None))"

definition math_match :: "string \<Rightarrow> (string \<times> string) option" where
  \<comment> \<open>a match of the pattern at the start of the text: group 1 and the text behind the
      match\<close>
  "math_match s =
     (if prefix ''`$'' s
      then (let run = takeWhile is_dollar (drop 1 s);
                rest = dropWhile is_dollar (drop 1 s)
            in case dollars_close rest of
                 Some (g, after) \<Rightarrow> Some (run @ g, after)
               | None \<Rightarrow>
                   if 2 \<le> length run \<and> prefix ''`'' rest then Some (run, drop 1 rest)
                   else None)
      else None)"

lemma dollar_run_close_length:
  assumes "dollar_run_close s = Some (g, r)"
  shows "length r < length s"
proof -
  let ?d = "dropWhile is_dollar s"
  from assms have p: "prefix ''`'' ?d" and r: "r = drop 1 ?d"
    by (auto simp: dollar_run_close_def split: if_splits)
  from p obtain zs where d: "?d = CHR 0x60 # zs" unfolding prefix_def by auto
  have "length ?d \<le> length s" by (rule length_dropWhile_le)
  then show ?thesis unfolding r d by simp
qed

lemma dollars_close_length: "dollars_close s = Some (g, r) \<Longrightarrow> length r < length s"
proof (induction s arbitrary: g)
  case Nil
  then show ?case by simp
next
  case (Cons c cs)
  show ?case
  proof (cases "dollar_run_close (c # cs)")
    case (Some m)
    with Cons.prems have "dollar_run_close (c # cs) = Some (g, r)" by simp
    then show ?thesis by (rule dollar_run_close_length)
  next
    case None
    with Cons.prems obtain g' where "dollars_close cs = Some (g', r)"
      by (auto split: if_splits option.splits)
    with Cons.IH have "length r < length cs" by blast
    then show ?thesis by simp
  qed
qed

lemma math_match_length:
  assumes "math_match s = Some (g, r)"
  shows "length r < length s"
proof -
  let ?rest = "dropWhile is_dollar (drop 1 s)"
  have le: "length ?rest \<le> length s"
    by (rule order_trans[OF length_dropWhile_le]) simp
  from assms have p: "prefix ''`$'' s"
    by (auto simp: math_match_def split: if_splits)
  show ?thesis
  proof (cases "dollars_close ?rest")
    case (Some ga)
    obtain g' a where ga: "ga = (g', a)" by (cases ga)
    with Some assms p have "a = r" by (simp add: math_match_def Let_def)
    with Some ga have "length r < length ?rest" by (auto dest: dollars_close_length)
    with le show ?thesis by linarith
  next
    case None
    with assms p have r: "r = drop 1 ?rest"
      by (auto simp: math_match_def Let_def split: if_splits)
    with le show ?thesis using p by (cases s) (auto simp: prefix_def)
  qed
qed

function re_sub_math :: "string \<Rightarrow> string" where
  "re_sub_math [] = []"
| "re_sub_math (c # cs) =
     (case math_match (c # cs) of
        Some (g, rest) \<Rightarrow> g @ re_sub_math rest
      | None \<Rightarrow> c # re_sub_math cs)"
  by pat_completeness auto
termination
  by (relation "measure length") (auto dest: math_match_length)

definition strip_markup :: "string \<Rightarrow> string" where
  \<comment> \<open>steps 1 and 2: the fences are removed, \<open>[$\<close> becomes \<open>(\<close> and \<open>$]\<close> becomes \<open>)\<close>\<close>
  "strip_markup text0 =
     (let text = py_replace ''```'' [] (py_replace ''```markdown'' [] (py_replace ''```latex'' [] text0))
      in py_replace ''$]'' '')'' (py_replace ''[$'' ''('' text))"

definition captured :: "string \<Rightarrow> (string \<times> string) option" where
  \<comment> \<open>\<open>preamble\<close> and \<open>equation_raw\<close> as the search gives them: the two groups,
      stripped\<close>
  "captured text =
     (case intercalation_search text of
        Some (g1, g2) \<Rightarrow> Some (py_strip g1, py_strip g2)
      | None \<Rightarrow> None)"

definition remove_emphasis :: "string \<Rightarrow> string" where
  \<comment> \<open>\<open>equation_raw.replace("**", "").replace("*", "")\<close>\<close>
  "remove_emphasis equation_raw = py_replace ''*'' [] (py_replace ''**'' [] equation_raw)"

definition equation_section :: "string \<Rightarrow> string" where
  \<comment> \<open>the equation wrapped in \<open>$$\<close> if missing\<close>
  "equation_section equation_raw =
     (if \<not> (prefix ''$$'' equation_raw \<or> prefix (bs @ ''['') equation_raw)
      then ''$$\<newline>'' @ equation_raw @ ''\<newline>$$''
      else equation_raw)"

definition dynamics_header :: string where
  \<comment> \<open>the header line that the cleanup writes between preamble and equation\<close>
  "dynamics_header = ''\<newline>\<newline>**Intercalation Dynamics:**\<newline>\<newline>''"

definition clean_latex_formatting :: "string \<Rightarrow> string" where
  "clean_latex_formatting text0 =
     (if text0 = [] then []
      else
        let text = strip_markup text0
        in case captured text of
             Some (preamble, equation_raw) \<Rightarrow>
               preamble @ dynamics_header @ equation_section (remove_emphasis equation_raw)
           | None \<Rightarrow> re_sub_math text)"

section \<open>The model gateway and the three layers\<close>

text \<open>
  What the program reads from outside is collected in an environment: the value of the
  environment variable \<open>GEMINI_API_KEY\<close>, the answer of the language model, and the two
  functions of the \<open>json\<close> library. A call of the model either raises or returns the
  \<open>content\<close> of the answer; it may depend on the client, on the prompt template and on
  the text put into the template.
\<close>

datatype chat_model = ChatGoogleGenerativeAI string | ChatOllama string

datatype template = ALGEBRA_SYSTEM_PROMPT | COMPOSER_SYSTEM_PROMPT | CODING_SYSTEM_PROMPT

record env =
  getenv_GEMINI_API_KEY :: "string option"
  chain_invoke :: "chat_model \<Rightarrow> template \<Rightarrow> string \<Rightarrow> exn + string"
  json_loads :: "string \<Rightarrow> string + pyval"
  json_dumps :: "pyval \<Rightarrow> string"

definition no_api_key :: "env \<Rightarrow> bool" where
  \<comment> \<open>\<open>not os.getenv("GEMINI_API_KEY")\<close>: the variable is absent or empty\<close>
  "no_api_key E \<longleftrightarrow>
     (case getenv_GEMINI_API_KEY E of None \<Rightarrow> True | Some k \<Rightarrow> k = [])"

definition get_model :: "env \<Rightarrow> string \<Rightarrow> exn + chat_model" where
  \<comment> \<open>\<open>ModelFactory.get_model\<close>; the temperature is handed to the client and plays no part
      in the choice\<close>
  "get_model E model_name =
     (if prefix ''gemini'' (py_lower model_name)
      then (if no_api_key E
            then Inl (ValueError ''GEMINI_API_KEY not found in environment variables.'')
            else Inr (ChatGoogleGenerativeAI model_name))
      else Inr (ChatOllama model_name))"

definition analyze :: "env \<Rightarrow> chat_model \<Rightarrow> string \<Rightarrow> exn + string" where
  \<comment> \<open>\<open>AlgebraAnalyst.analyze\<close>\<close>
  "analyze E llm text = chain_invoke E llm ALGEBRA_SYSTEM_PROMPT text"

definition compose :: "env \<Rightarrow> chat_model \<Rightarrow> string \<Rightarrow> exn + pyval" where
  \<comment> \<open>\<open>Composer.compose\<close>\<close>
  "compose E llm algebra_str =
     (case chain_invoke E llm COMPOSER_SYSTEM_PROMPT algebra_str of
        Inl e \<Rightarrow> Inl e
      | Inr raw_output \<Rightarrow> Inr (parse_json_safely (json_loads E) (strip_think_tags raw_output)))"

definition generate_code :: "env \<Rightarrow> chat_model \<Rightarrow> pyval \<Rightarrow> exn + string" where
  \<comment> \<open>\<open>CodeGenerator.generate_code\<close>\<close>
  "generate_code E llm composition =
     chain_invoke E llm CODING_SYSTEM_PROMPT (json_dumps E composition)"

section \<open>The pipeline\<close>

definition layer1 :: "env \<Rightarrow> string \<Rightarrow> string \<Rightarrow> exn + string" where
  \<comment> \<open>the body of the first \<open>try\<close>: the value of \<open>algebraic_expr\<close>\<close>
  "layer1 E text model_name =
     (case get_model E model_name of Inl e \<Rightarrow> Inl e | Inr llm \<Rightarrow>
      case analyze E llm text of Inl e \<Rightarrow> Inl e | Inr content \<Rightarrow>
        Inr (app_strip_think_tags content))"

definition layer2 :: "env \<Rightarrow> string \<Rightarrow> string \<Rightarrow> exn + pyval \<times> string" where
  \<comment> \<open>the body of the second \<open>try\<close>: the values of \<open>composition\<close> and \<open>math_report\<close>\<close>
  "layer2 E algebraic_expr model_name =
     (case get_model E model_name of Inl e \<Rightarrow> Inl e | Inr llm \<Rightarrow>
      case compose E llm algebraic_expr of Inl e \<Rightarrow> Inl e | Inr composition \<Rightarrow>
        if is_dict composition
        then (case format_latex_report composition of Inl e \<Rightarrow> Inl e | Inr raw \<Rightarrow>
                Inr (composition, clean_latex_formatting raw))
        else Inr (composition, ''Error parsing JSON: '' @ py_str composition))"

definition layer3 :: "env \<Rightarrow> pyval \<Rightarrow> string \<Rightarrow> exn + string" where
  \<comment> \<open>the body of the third \<open>try\<close>: the value of \<open>pytorch_code\<close>\<close>
  "layer3 E composition model_name =
     (case get_model E model_name of Inl e \<Rightarrow> Inl e | Inr llm \<Rightarrow>
      case generate_code E llm composition of Inl e \<Rightarrow> Inl e | Inr code \<Rightarrow>
        Inr (app_strip_think_tags code))"

definition process_pattern :: "env \<Rightarrow> string \<Rightarrow> string \<Rightarrow> string \<times> string \<times> string" where
  "process_pattern E text model_name =
     (if py_strip text = [] then (''Please enter text.'', [], [])
      else if prefix ''gemini'' (py_lower model_name) \<and> no_api_key E
      then (''Error: GOOGLE_API_KEY missing.'', [], [])
      else
        case layer1 E text model_name of
          Inl e \<Rightarrow> (''Error L1: '' @ exn_str e, [], [])
        | Inr algebraic_expr \<Rightarrow>
            (case layer2 E algebraic_expr model_name of
               Inl e \<Rightarrow> (algebraic_expr, ''Error L2: '' @ exn_str e, [])
             | Inr (composition, math_report) \<Rightarrow>
                 (case layer3 E composition model_name of
                    Inl e \<Rightarrow> (algebraic_expr, math_report, ''Error L3: '' @ exn_str e)
                  | Inr pytorch_code \<Rightarrow> (algebraic_expr, math_report, pytorch_code))))"

section \<open>Concrete environments\<close>

text \<open>
  Environments on which the pipeline can be run. \<open>example_loads\<close> and
  \<open>example_dumps\<close> agree with \<open>json.loads\<close> and \<open>json.dumps(_, indent=2)\<close> on the
  few texts and values used below.
\<close>

definition linear_schedule :: pyval where
  "linear_schedule = PDict [(''schedule_logic'', PStr ''Linear''), (''score'', PList [])]"

definition linear_schedule_json :: string where
  \<comment> \<open>\<open>json.dumps(linear_schedule, indent=2)\<close>\<close>
  "linear_schedule_json =
     ''{\<newline>  '' @ dq @ ''schedule_logic'' @ dq @ '': '' @ dq @ ''Linear'' @ dq @ '',\<newline>  ''
     @ dq @ ''score'' @ dq @ '': []\<newline>}''"

definition example_loads :: "string \<Rightarrow> string + pyval" where
  "example_loads s =
     (if py_strip s = ''[1, 2]'' then Inr (PList [PInt 1, PInt 2])
      else if py_strip s = linear_schedule_json then Inr linear_schedule
      else if py_strip s = ''{'' @ dq @ ''score'' @ dq @ '': [{}]}''
      then Inr (PDict [(''score'', PList [PDict []])])
      else Inl ''Expecting value: line 1 column 1 (char 0)'')"

definition example_dumps :: "pyval \<Rightarrow> string" where
  "example_dumps v =
     (if v = PList [PInt 1, PInt 2] then ''[\<newline>  1,\<newline>  2\<newline>]''
      else if v = linear_schedule then linear_schedule_json
      else ''null'')"

definition adversarial_schedule :: "(string \<times> pyval) list" where
  "adversarial_schedule =
     [(''original_expression'', PStr ''5Te oo 3Ti''),
      (''schedule_logic'', PStr ''Adversarial''),
      (''global_frequency'', PFloat ''1.0''),
      (''score'',
        PList [PDict [(''voice'', PStr ''Voice 1 (Te)''),
                      (''symbol'', PStr ''ExploitationObjective''),
                      (''mass'', PInt 5), (''formula'', PStr ''A''),
                      (''description'', PStr ''value'')],
               PDict [(''voice'', PStr ''Voice 2 (Ti)''),
                      (''symbol'', PStr ''ContrastObjective''),
                      (''mass'', PInt 3), (''formula'', PStr ''B''),
                      (''description'', PStr ''contrast'')]]),
      (''math_narrative'', PStr ''Value against contrast'')]"

definition offline_env :: env where
  \<comment> \<open>no credential, and every call of the model fails\<close>
  "offline_env =
     \<lparr> getenv_GEMINI_API_KEY = None,
       chain_invoke = (\<lambda>llm tmpl x. Inl (OtherError ''Connection refused'')),
       json_loads = example_loads,
       json_dumps = example_dumps \<rparr>"

definition list_env :: env where
  \<comment> \<open>the model answers the composer's prompt with a JSON array, and the coding prompt
      with a comment that repeats what it was given\<close>
  "list_env =
     \<lparr> getenv_GEMINI_API_KEY = None,
       chain_invoke = (\<lambda>llm tmpl x.
          case tmpl of
            ALGEBRA_SYSTEM_PROMPT \<Rightarrow> Inr ''<think>hm</think>Ne ~ Ti''
          | COMPOSER_SYSTEM_PROMPT \<Rightarrow> Inr ''```json\<newline>[1, 2]\<newline>```''
          | CODING_SYSTEM_PROMPT \<Rightarrow> Inr (''# '' @ x)),
       json_loads = example_loads,
       json_dumps = example_dumps \<rparr>"

definition broken_env :: env where
  \<comment> \<open>the model answers the composer's prompt with a schedule whose one track has no
      field, then with text that is no JSON, depending on the expression\<close>
  "broken_env =
     \<lparr> getenv_GEMINI_API_KEY = None,
       chain_invoke = (\<lambda>llm tmpl x.
          case tmpl of
            ALGEBRA_SYSTEM_PROMPT \<Rightarrow> Inr ''Ne ~ Ti''
          | COMPOSER_SYSTEM_PROMPT \<Rightarrow>
              Inr (if x = ''Ne ~ Ti'' then ''{'' @ dq @ ''score'' @ dq @ '': [{}]}''
                   else ''<think>plan</think>```Sorry, no schedule.```'')
          | CODING_SYSTEM_PROMPT \<Rightarrow> Inl (OtherError ''Read timed out'')),
       json_loads = example_loads,
       json_dumps = example_dumps \<rparr>"

section \<open>Facts about the string operations\<close>

lemma all_dropWhile_iff: "(\<forall>x\<in>set (dropWhile P s). P x) \<longleftrightarrow> (\<forall>x\<in>set s. P x)"
proof
  assume a: "\<forall>x\<in>set (dropWhile P s). P x"
  have "dropWhile P s = []"
  proof (rule ccontr)
    assume n: "dropWhile P s \<noteq> []"
    then have "\<not> P (hd (dropWhile P s))" by (rule hd_dropWhile)
    moreover from n have "hd (dropWhile P s) \<in> set (dropWhile P s)" by simp
    ultimately show False using a by blast
  qed
  then show "\<forall>x\<in>set s. P x" by (simp add: dropWhile_eq_Nil_conv)
next
  assume "\<forall>x\<in>set s. P x"
  then show "\<forall>x\<in>set (dropWhile P s). P x" by (meson set_dropWhileD)
qed

lemma py_strip_Nil_iff: "py_strip s = [] \<longleftrightarrow> list_all py_isspace s"
  by (simp add: py_strip_def dropWhile_eq_Nil_conv all_dropWhile_iff list_all_iff)

section \<open>Facts about the report\<close>



lemma is_track_table_row: "is_track t \<Longrightarrow> \<exists>row. table_row t = Inr row"
  by (cases t) (auto simp: table_row_def split: option.splits pyval.splits)





lemma py_str_5: "py_str (PInt 5) = ''5''"
  by code_simp

lemma py_str_3: "py_str (PInt 3) = ''3''"
  by code_simp

lemma py_strip_id:
  assumes "s \<noteq> []" "\<not> py_isspace (hd s)" "\<not> py_isspace (last s)"
  shows "py_strip s = s"
proof -
  from assms(1,2) have a: "dropWhile py_isspace s = s" by (cases s) auto
  from assms(1,3) have "dropWhile py_isspace (rev s) = rev s"
    by (cases "rev s") (auto simp: last_rev[symmetric] simp del: last_rev)
  with a show ?thesis by (simp add: py_strip_def)
qed

lemma backquote_not_space: "\<not> py_isspace (CHR 0x60)"
  by (simp add: py_isspace_def)

lemma strip_code_fence_json:
  assumes "py_strip t = ''```json'' @ r" and "\<not> prefix ''```'' r"
  shows "strip_code_fence t = (if suffix ''```'' r then take (length r - 3) r else r)"
  using assms by (simp add: strip_code_fence_def Let_def)

section \<open>Facts about the removal of spans\<close>

lemma prefix_short: "prefix p (xs @ ys) \<Longrightarrow> length p \<le> length xs \<Longrightarrow> prefix p xs"
  by (auto simp: prefix_append)

lemma prefix_butlast_sublist:
  assumes "prefix p ((x # b) @ p @ c)" shows "sublist p ((x # b) @ butlast p)"
proof (cases "p = []")
  case True
  then show ?thesis by simp
next
  case False
  then have "p = butlast p @ [last p]" by simp
  then have "(x # b) @ p @ c = ((x # b) @ butlast p) @ ([last p] @ c)"
    by (metis append.assoc)
  with assms have "prefix p (((x # b) @ butlast p) @ ([last p] @ c))" by metis
  moreover have "length p \<le> length ((x # b) @ butlast p)" by simp
  ultimately have "prefix p ((x # b) @ butlast p)" by (rule prefix_short)
  then show ?thesis by (rule prefix_imp_sublist)
qed

lemma find_after_first:
  "\<not> sublist pat (b @ butlast pat) \<Longrightarrow> find_after pat (b @ pat @ c) = Some c"
proof (induction b)
  case Nil
  show ?case
  proof (cases "pat @ c")
    case Nil
    then show ?thesis by simp
  next
    case (Cons y ys)
    have "prefix pat (pat @ c)" by simp
    then have "find_after pat (pat @ c) = Some (drop (length pat) (pat @ c))"
      unfolding Cons by simp
    then show ?thesis by simp
  qed
next
  case (Cons x b)
  have np: "\<not> prefix pat ((x # b) @ pat @ c)"
  proof
    assume "prefix pat ((x # b) @ pat @ c)"
    from prefix_butlast_sublist[OF this] Cons.prems show False by contradiction
  qed
  have "\<not> sublist pat (b @ butlast pat)"
    using Cons.prems by (auto simp: sublist_Cons_right)
  with Cons.IH np show ?case by simp
qed

lemma find_after_None: "find_after pat s = None \<longleftrightarrow> \<not> sublist pat s"
  by (induction s) (auto simp: sublist_Cons_right)

lemma find_after_Some: "find_after pat s = Some r \<Longrightarrow> \<exists>b. s = b @ pat @ r"
proof (induction s)
  case Nil
  then show ?case by (auto split: if_splits)
next
  case (Cons c cs)
  show ?case
  proof (cases "prefix pat (c # cs)")
    case True
    then obtain z where z: "c # cs = pat @ z" by (auto simp: prefix_def)
    from True Cons.prems have "r = drop (length pat) (c # cs)" by simp
    with z have "c # cs = [] @ pat @ r" by simp
    then show ?thesis by blast
  next
    case False
    with Cons.prems have "find_after pat cs = Some r" by simp
    with Cons.IH obtain b where "cs = b @ pat @ r" by blast
    then have "c # cs = (c # b) @ pat @ r" by simp
    then show ?thesis by blast
  qed
qed

lemma span_match_SomeD:
  "span_match opn cls s = Some r \<Longrightarrow> \<exists>b. s = opn @ b @ cls @ r"
  by (auto simp: span_match_def prefix_def split: if_splits dest!: find_after_Some)

lemma span_match_None_prefix:
  assumes "span_match opn cls (opn @ t) = None" "opn \<noteq> []"
  shows "\<not> sublist cls t"
  using assms by (simp add: span_match_def find_after_None)

lemma re_sub_span_length: "length (re_sub_span opn cls s) \<le> length s"
proof (induction opn cls s rule: re_sub_span.induct)
  case (1 opn cls)
  then show ?case by simp
next
  case (2 opn cls c cs)
  show ?case
  proof (cases "span_match opn cls (c # cs)")
    case None
    with "2.IH"(1) show ?thesis by simp
  next
    case (Some r)
    from span_match_length[OF Some] "2.IH"(2)[OF Some] Some show ?thesis by simp
  qed
qed

lemma re_sub_span_shrinks:
  "opn \<noteq> [] \<Longrightarrow> has_span opn cls s \<Longrightarrow> length (re_sub_span opn cls s) < length s"
proof (induction opn cls s rule: re_sub_span.induct)
  case (1 opn cls)
  then show ?case by (simp add: has_span_def)
next
  case (2 opn cls c cs)
  show ?case
  proof (cases "span_match opn cls (c # cs)")
    case (Some r)
    then have "length r < length (c # cs)" by (rule span_match_length)
    moreover have "length (re_sub_span opn cls r) \<le> length r" by (rule re_sub_span_length)
    ultimately show ?thesis using Some by simp
  next
    case None
    from "2.prems" obtain a b d where s: "c # cs = a @ opn @ b @ cls @ d"
      by (auto simp: has_span_def)
    have "a \<noteq> []"
    proof
      assume "a = []"
      with s None have "span_match opn cls (opn @ (b @ cls @ d)) = None" by simp
      from span_match_None_prefix[OF this "2.prems"(1)] show False by simp
    qed
    then obtain a' where "a = c # a'" using s by (cases a) auto
    with s have "has_span opn cls cs" by (auto simp: has_span_def)
    with "2.IH"(1)[OF None "2.prems"(1)] have "length (re_sub_span opn cls cs) < length cs" .
    with None show ?thesis by simp
  qed
qed

lemma re_sub_span_fixed:
  "\<not> has_span opn cls s \<Longrightarrow> re_sub_span opn cls s = s"
proof (induction opn cls s rule: re_sub_span.induct)
  case (1 opn cls)
  then show ?case by simp
next
  case (2 opn cls c cs)
  have "span_match opn cls (c # cs) = None"
  proof (cases "span_match opn cls (c # cs)")
    case (Some r)
    then obtain b where "c # cs = [] @ opn @ b @ cls @ r" by (auto dest: span_match_SomeD)
    then have "has_span opn cls (c # cs)" unfolding has_span_def by blast
    with "2.prems" show ?thesis by simp
  qed simp
  moreover have "\<not> has_span opn cls cs"
  proof
    assume "has_span opn cls cs"
    then obtain a b d where "cs = a @ opn @ b @ cls @ d" by (auto simp: has_span_def)
    then have "c # cs = (c # a) @ opn @ b @ cls @ d" by simp
    then have "has_span opn cls (c # cs)" unfolding has_span_def by blast
    with "2.prems" show False by simp
  qed
  ultimately show ?case by (simp add: "2.IH"(1))
qed

lemma re_sub_span_fixed_iff:
  "opn \<noteq> [] \<Longrightarrow> re_sub_span opn cls s = s \<longleftrightarrow> \<not> has_span opn cls s"
  using re_sub_span_fixed re_sub_span_shrinks by (metis less_irrefl)

lemma re_sub_span_first:
  assumes "opn \<noteq> []" "\<not> sublist opn (a @ butlast opn)" "\<not> sublist cls (b @ butlast cls)"
  shows "re_sub_span opn cls (a @ opn @ b @ cls @ c) = a @ re_sub_span opn cls c"
  using assms(2)
proof (induction a)
  case Nil
  have "span_match opn cls (opn @ b @ cls @ c) = Some c"
    using assms(1,3) by (simp add: span_match_def find_after_first)
  then show ?case using assms(1) by (cases "opn @ b @ cls @ c") auto
next
  case (Cons x a)
  have "\<not> prefix opn ((x # a) @ opn @ b @ cls @ c)"
  proof
    assume "prefix opn ((x # a) @ opn @ b @ cls @ c)"
    from prefix_butlast_sublist[OF this] Cons.prems show False by contradiction
  qed
  then have "span_match opn cls (x # a @ opn @ b @ cls @ c) = None"
    by (simp add: span_match_def)
  moreover have "\<not> sublist opn (a @ butlast opn)"
    using Cons.prems by (auto simp: sublist_Cons_right)
  ultimately show ?case using Cons.IH by simp
qed

section \<open>Facts about the cleanup\<close>

subsection \<open>Replacing\<close>

lemma py_replace_Nil_old [simp]: "py_replace [] new s = s"
  by (induction s) auto












subsection \<open>The search for the heading\<close>











subsection \<open>Stripping, emphasis and the wrapped equation\<close>

















subsection \<open>A second pass\<close>








section \<open>The pipeline: preconditions and stage failures\<close>

text \<open>
  C8. For every model name, a user text that is empty or has only whitespace makes
  \<open>process_pattern\<close> return exactly \<open>("Please enter text.", "", "")\<close>. No stage runs: the
  result is the same in every environment, whatever the model would answer.
\<close>

theorem process_pattern_blank:
  assumes "list_all py_isspace text"
  shows "process_pattern E text model_name = (''Please enter text.'', [], [])"
  using assms by (simp add: process_pattern_def py_strip_Nil_iff)

theorem process_pattern_blank_witness:
  "list_all py_isspace '' \<newline> ''
   \<and> process_pattern list_env '' \<newline> '' ''llama3'' = (''Please enter text.'', [], [])"
proof -
  have h: "list_all py_isspace '' \<newline> ''" by (simp add: py_isspace_def)
  from process_pattern_blank[OF h] h show ?thesis by blast
qed

text \<open>
  C9. For a text that is not blank, a model name that starts with \<open>gemini\<close> in any case,
  and no credential in the environment, \<open>process_pattern\<close> returns the fixed message
  \<open>Error: GOOGLE_API_KEY missing.\<close> in the first slot and empty strings in the other two,
  in every environment; and \<open>get_model\<close> raises a \<open>ValueError\<close> for the same model name.
\<close>

theorem process_pattern_missing_key:
  assumes "py_strip text \<noteq> []"
    and "prefix ''gemini'' (py_lower model_name)"
    and "no_api_key E"
  shows "process_pattern E text model_name = (''Error: GOOGLE_API_KEY missing.'', [], [])
       \<and> get_model E model_name
           = Inl (ValueError ''GEMINI_API_KEY not found in environment variables.'')"
  using assms by (simp add: process_pattern_def get_model_def)

theorem process_pattern_missing_key_witness:
  "py_strip ''I feel torn'' \<noteq> []
   \<and> prefix ''gemini'' (py_lower ''Gemini-2.5-flash'')
   \<and> no_api_key offline_env
   \<and> process_pattern offline_env ''I feel torn'' ''Gemini-2.5-flash''
       = (''Error: GOOGLE_API_KEY missing.'', [], [])
   \<and> get_model offline_env ''Gemini-2.5-flash''
       = Inl (ValueError ''GEMINI_API_KEY not found in environment variables.'')"
proof -
  have h1: "py_strip ''I feel torn'' \<noteq> []" by (simp add: py_strip_def py_isspace_def)
  have h2: "prefix ''gemini'' (py_lower ''Gemini-2.5-flash'')" by code_simp
  have h3: "no_api_key offline_env" by (simp add: no_api_key_def offline_env_def)
  from process_pattern_missing_key[OF h1 h2 h3] h1 h2 h3 show ?thesis by blast
qed

text \<open>
  C1. Past the two preconditions, \<open>process_pattern\<close> returns a triple in every case. If
  the first \<open>try\<close> block raises \<open>e\<close>, the triple is \<open>("Error L1: e", "", "")\<close>. If the
  first gives the expression \<open>a\<close> and the second raises, it is \<open>(a, "Error L2: e", "")\<close>.
  If the second gives the report \<open>r\<close> and the third raises, it is
  \<open>(a, r, "Error L3: e")\<close>. Otherwise it is the three outputs. No exception of a stage
  reaches the caller.
\<close>

theorem process_pattern_stage_failure:
  assumes "py_strip text \<noteq> []"
    and "\<not> (prefix ''gemini'' (py_lower model_name) \<and> no_api_key E)"
  shows "(\<forall>e. layer1 E text model_name = Inl e \<longrightarrow>
            process_pattern E text model_name = (''Error L1: '' @ exn_str e, [], []))
       \<and> (\<forall>a e. layer1 E text model_name = Inr a \<and> layer2 E a model_name = Inl e \<longrightarrow>
            process_pattern E text model_name = (a, ''Error L2: '' @ exn_str e, []))
       \<and> (\<forall>a c r e. layer1 E text model_name = Inr a \<and> layer2 E a model_name = Inr (c, r)
              \<and> layer3 E c model_name = Inl e \<longrightarrow>
            process_pattern E text model_name = (a, r, ''Error L3: '' @ exn_str e))
       \<and> (\<forall>a c r p. layer1 E text model_name = Inr a \<and> layer2 E a model_name = Inr (c, r)
              \<and> layer3 E c model_name = Inr p \<longrightarrow>
            process_pattern E text model_name = (a, r, p))"
proof -
  from assms have "process_pattern E text model_name =
    (case layer1 E text model_name of
       Inl e \<Rightarrow> (''Error L1: '' @ exn_str e, [], [])
     | Inr algebraic_expr \<Rightarrow>
         (case layer2 E algebraic_expr model_name of
            Inl e \<Rightarrow> (algebraic_expr, ''Error L2: '' @ exn_str e, [])
          | Inr (composition, math_report) \<Rightarrow>
              (case layer3 E composition model_name of
                 Inl e \<Rightarrow> (algebraic_expr, math_report, ''Error L3: '' @ exn_str e)
               | Inr pytorch_code \<Rightarrow> (algebraic_expr, math_report, pytorch_code))))"
    unfolding process_pattern_def by auto
  then show ?thesis by simp
qed

theorem process_pattern_stage_failure_witness:
  "py_strip ''I feel torn'' \<noteq> []
   \<and> \<not> (prefix ''gemini'' (py_lower ''llama3'') \<and> no_api_key broken_env)
   \<and> layer1 broken_env ''I feel torn'' ''llama3'' = Inr ''Ne ~ Ti''
   \<and> layer2 broken_env ''Ne ~ Ti'' ''llama3'' = Inl (KeyError ''formula'')
   \<and> process_pattern broken_env ''I feel torn'' ''llama3''
       = (''Ne ~ Ti'', ''Error L2: '' @ sq @ ''formula'' @ sq, [])"
proof -
  have h1: "py_strip ''I feel torn'' \<noteq> []" by (simp add: py_strip_def py_isspace_def)
  have h2: "\<not> (prefix ''gemini'' (py_lower ''llama3'') \<and> no_api_key broken_env)"
    by (simp add: py_lower_def py_lower_char_def)
  have l1: "layer1 broken_env ''I feel torn'' ''llama3'' = Inr ''Ne ~ Ti''"
    by code_simp
  have l2: "layer2 broken_env ''Ne ~ Ti'' ''llama3'' = Inl (KeyError ''formula'')"
    by code_simp
  have s: "exn_str (KeyError ''formula'') = sq @ ''formula'' @ sq" by code_simp
  from process_pattern_stage_failure[OF h1 h2] l1 l2
  have "process_pattern broken_env ''I feel torn'' ''llama3''
        = (''Ne ~ Ti'', ''Error L2: '' @ exn_str (KeyError ''formula''), [])" by blast
  with h1 h2 l1 l2 s show ?thesis by simp
qed

text \<open>
  C10. When the composer's answer parses to a value \<open>v\<close> that is no dictionary, the second
  \<open>try\<close> block does not fail: it keeps \<open>v\<close> as the composition and writes
  \<open>Error parsing JSON: v\<close> into the report. The third block then calls \<open>generate_code\<close> on
  \<open>v\<close> itself, and the third slot is what that call gives.
\<close>

theorem process_pattern_non_dict:
  assumes "py_strip text \<noteq> []"
    and "\<not> (prefix ''gemini'' (py_lower model_name) \<and> no_api_key E)"
    and "layer1 E text model_name = Inr a"
    and "get_model E model_name = Inr llm"
    and "compose E llm a = Inr v"
    and "\<not> is_dict v"
  shows "layer2 E a model_name = Inr (v, ''Error parsing JSON: '' @ py_str v)
       \<and> layer3 E v model_name
           = (case generate_code E llm v of Inl e \<Rightarrow> Inl e
              | Inr code \<Rightarrow> Inr (app_strip_think_tags code))
       \<and> process_pattern E text model_name
           = (a, ''Error parsing JSON: '' @ py_str v,
              case generate_code E llm v of
                Inl e \<Rightarrow> ''Error L3: '' @ exn_str e
              | Inr code \<Rightarrow> app_strip_think_tags code)"
  using assms by (simp add: process_pattern_def layer2_def layer3_def split: sum.splits)

theorem process_pattern_non_dict_witness:
  "py_strip ''I feel torn'' \<noteq> []
   \<and> \<not> (prefix ''gemini'' (py_lower ''llama3'') \<and> no_api_key list_env)
   \<and> layer1 list_env ''I feel torn'' ''llama3'' = Inr ''Ne ~ Ti''
   \<and> get_model list_env ''llama3'' = Inr (ChatOllama ''llama3'')
   \<and> compose list_env (ChatOllama ''llama3'') ''Ne ~ Ti'' = Inr (PList [PInt 1, PInt 2])
   \<and> \<not> is_dict (PList [PInt 1, PInt 2])
   \<and> process_pattern list_env ''I feel torn'' ''llama3''
       = (''Ne ~ Ti'', ''Error parsing JSON: [1, 2]'', ''# [\<newline>  1,\<newline>  2\<newline>]'')"
proof -
  have h1: "py_strip ''I feel torn'' \<noteq> []" by (simp add: py_strip_def py_isspace_def)
  have h2: "\<not> (prefix ''gemini'' (py_lower ''llama3'') \<and> no_api_key list_env)"
    by (simp add: py_lower_def py_lower_char_def)
  have h3: "layer1 list_env ''I feel torn'' ''llama3'' = Inr ''Ne ~ Ti''" by code_simp
  have h4: "get_model list_env ''llama3'' = Inr (ChatOllama ''llama3'')" by code_simp
  have h5: "compose list_env (ChatOllama ''llama3'') ''Ne ~ Ti'' = Inr (PList [PInt 1, PInt 2])"
    by code_simp
  have h6: "\<not> is_dict (PList [PInt 1, PInt 2])" by simp
  have g: "generate_code list_env (ChatOllama ''llama3'') (PList [PInt 1, PInt 2])
           = Inr ''# [\<newline>  1,\<newline>  2\<newline>]''" by code_simp
  have a: "app_strip_think_tags ''# [\<newline>  1,\<newline>  2\<newline>]'' = ''# [\<newline>  1,\<newline>  2\<newline>]''"
    by code_simp
  have p: "py_str (PList [PInt 1, PInt 2]) = ''[1, 2]''" by code_simp
  from process_pattern_non_dict[OF h1 h2 h3 h4 h5 h6] g a p
  have "process_pattern list_env ''I feel torn'' ''llama3''
       = (''Ne ~ Ti'', ''Error parsing JSON: [1, 2]'', ''# [\<newline>  1,\<newline>  2\<newline>]'')"
    by simp
  with h1 h2 h3 h4 h5 h6 show ?thesis by blast
qed

section \<open>The composer: parse or degrade\<close>




section \<open>The report\<close>



text \<open>
  C4. For a schedule whose \<open>schedule_logic\<close> is \<open>Adversarial\<close> and whose \<open>score\<close> has
  two tracks, the first of mass 5 and formula \<open>A\<close>, the second of mass 3 and formula \<open>B\<close>
  (with any \<open>voice\<close> and \<open>symbol\<close>), the master equation is
  \<open>$$ J(\theta) = \max_\pi (5 \cdot [A] - 3 \cdot [B]) $$\<close>: the second term is attached
  with \<open> - \<close> and no \<open>+\<close>. The report ends with the header line and this equation.
\<close>

theorem master_equation_adversarial:
  assumes "map_of kvs ''schedule_logic'' = Some (PStr ''Adversarial'')"
    and "map_of kvs ''score'' = Some (PList [PDict t1, PDict t2])"
    and "map_of t1 ''mass'' = Some (PInt 5)" and "map_of t1 ''formula'' = Some (PStr ''A'')"
    and "map_of t1 ''voice'' = Some v1" and "map_of t1 ''symbol'' = Some s1"
    and "map_of t2 ''mass'' = Some (PInt 3)" and "map_of t2 ''formula'' = Some (PStr ''B'')"
    and "map_of t2 ''voice'' = Some v2" and "map_of t2 ''symbol'' = Some s2"
  shows "master_equation (PStr ''Adversarial'') [PDict t1, PDict t2]
           = Inr (''$$ J('' @ bs @ ''theta) = '' @ bs @ ''max_'' @ bs @ ''pi (''
                  @ ''5 '' @ bs @ ''cdot [A] - 3 '' @ bs @ ''cdot [B]'' @ '') $$'')
       \<and> (\<exists>head. format_latex_report (PDict kvs)
           = Inr (head @ ''\<newline>**Intercalation Dynamics:**\<newline>''
                  @ ''$$ J('' @ bs @ ''theta) = '' @ bs @ ''max_'' @ bs @ ''pi (''
                  @ ''5 '' @ bs @ ''cdot [A] - 3 '' @ bs @ ''cdot [B]'' @ '') $$''))"
proof -
  let ?eq = "''$$ J('' @ bs @ ''theta) = '' @ bs @ ''max_'' @ bs @ ''pi (''
             @ ''5 '' @ bs @ ''cdot [A] - 3 '' @ bs @ ''cdot [B]'' @ '') $$''"
  have m1: "mass_formula (PDict t1) = Inr (''5'', ''A'')"
    using assms(3,4) py_str_5 by (simp add: mass_formula_def)
  have m2: "mass_formula (PDict t2) = Inr (''3'', ''B'')"
    using assms(7,8) py_str_3 by (simp add: mass_formula_def)
  have eq: "master_equation (PStr ''Adversarial'') [PDict t1, PDict t2] = Inr ?eq"
    using m1 m2
    by (simp add: master_equation_def first_rest_terms_def linear_term_def adversarial_term_def)
  have r1: "\<exists>row. table_row (PDict t1) = Inr row"
    using assms(3-6) by (intro is_track_table_row) simp
  have r2: "\<exists>row. table_row (PDict t2) = Inr row"
    using assms(7-10) by (intro is_track_table_row) simp
  from r1 r2 obtain row1 row2
    where rows: "table_row (PDict t1) = Inr row1" "table_row (PDict t2) = Inr row2"
    by blast
  have "format_latex_report (PDict kvs)
      = Inr ((report_head (PStr ''Adversarial'')
                (case map_of kvs ''math_narrative'' of Some v \<Rightarrow> v | None \<Rightarrow> PStr [])
                (case map_of kvs ''global_frequency'' of Some v \<Rightarrow> v | None \<Rightarrow> PFloat ''1.0'')
              @ concat [row1, row2])
             @ ''\<newline>**Intercalation Dynamics:**\<newline>'' @ ?eq)"
    using assms(1,2) rows eq by (simp add: format_latex_report_def)
  then have "\<exists>head. format_latex_report (PDict kvs)
           = Inr (head @ ''\<newline>**Intercalation Dynamics:**\<newline>'' @ ?eq)"
    by blast
  with eq show ?thesis by blast
qed

theorem master_equation_adversarial_witness:
  "map_of adversarial_schedule ''schedule_logic'' = Some (PStr ''Adversarial'')
   \<and> map_of adversarial_schedule ''score''
       = Some (PList [PDict [(''voice'', PStr ''Voice 1 (Te)''),
                             (''symbol'', PStr ''ExploitationObjective''),
                             (''mass'', PInt 5), (''formula'', PStr ''A''),
                             (''description'', PStr ''value'')],
                      PDict [(''voice'', PStr ''Voice 2 (Ti)''),
                             (''symbol'', PStr ''ContrastObjective''),
                             (''mass'', PInt 3), (''formula'', PStr ''B''),
                             (''description'', PStr ''contrast'')]])
   \<and> (\<exists>head. format_latex_report (PDict adversarial_schedule)
           = Inr (head @ ''\<newline>**Intercalation Dynamics:**\<newline>''
                  @ ''$$ J('' @ bs @ ''theta) = '' @ bs @ ''max_'' @ bs @ ''pi (''
                  @ ''5 '' @ bs @ ''cdot [A] - 3 '' @ bs @ ''cdot [B]'' @ '') $$''))"
proof -
  let ?t1 = "[(''voice'', PStr ''Voice 1 (Te)''), (''symbol'', PStr ''ExploitationObjective''),
              (''mass'', PInt 5), (''formula'', PStr ''A''), (''description'', PStr ''value'')]"
  let ?t2 = "[(''voice'', PStr ''Voice 2 (Ti)''), (''symbol'', PStr ''ContrastObjective''),
              (''mass'', PInt 3), (''formula'', PStr ''B''),
              (''description'', PStr ''contrast'')]"
  have h1: "map_of adversarial_schedule ''schedule_logic'' = Some (PStr ''Adversarial'')"
    by (simp add: adversarial_schedule_def)
  have h2: "map_of adversarial_schedule ''score'' = Some (PList [PDict ?t1, PDict ?t2])"
    by (simp add: adversarial_schedule_def)
  have t1: "map_of ?t1 ''mass'' = Some (PInt 5)" "map_of ?t1 ''formula'' = Some (PStr ''A'')"
    "map_of ?t1 ''voice'' = Some (PStr ''Voice 1 (Te)'')"
    "map_of ?t1 ''symbol'' = Some (PStr ''ExploitationObjective'')"
    by simp_all
  have t2: "map_of ?t2 ''mass'' = Some (PInt 3)" "map_of ?t2 ''formula'' = Some (PStr ''B'')"
    "map_of ?t2 ''voice'' = Some (PStr ''Voice 2 (Ti)'')"
    "map_of ?t2 ''symbol'' = Some (PStr ''ContrastObjective'')"
    by simp_all
  from master_equation_adversarial[OF h1 h2 t1 t2] h1 h2 show ?thesis by blast
qed

section \<open>The code fence around the model's answer\<close>

text \<open>
  C6. Let \<open>obj\<close> be a dictionary that the \<open>json\<close> library serializes to the text of a JSON
  object (it starts with \<open>{\<close>) and reads back from that text, also when whitespace
  stands around it. Put the serialized text between an opening fence \<open>```json\<close> and a
  closing fence \<open>```\<close>, with whitespace (such as a line break) or nothing between fence
  and text. Then \<open>_parse_json_safely\<close> gives back \<open>obj\<close>.
\<close>

theorem parse_json_safely_roundtrip:
  assumes "is_dict obj"
    and "prefix ''{'' (json_dumps E obj)"
    and "list_all py_isspace w1"
    and "json_loads E (w1 @ json_dumps E obj @ w2) = Inr obj"
  shows "parse_json_safely (json_loads E) (''```json'' @ w1 @ json_dumps E obj @ w2 @ ''```'')
         = obj"
proof -
  let ?j = "json_dumps E obj"
  let ?r = "(w1 @ ?j @ w2) @ ''```''"
  let ?fenced = "''```json'' @ ?r"
  have s: "py_strip ?fenced = ?fenced"
    by (rule py_strip_id) (simp_all add: backquote_not_space)
  have np: "\<not> prefix ''```'' ?r"
  proof (cases w1)
    case Nil
    from assms(2) obtain r where "?j = ''{'' @ r" by (auto simp: prefix_def)
    with Nil show ?thesis by simp
  next
    case (Cons c cs)
    with assms(3) have "py_isspace c" by simp
    then have "c \<noteq> CHR 0x60" using backquote_not_space by auto
    with Cons show ?thesis by simp
  qed
  have "strip_code_fence ?fenced = (if suffix ''```'' ?r then take (length ?r - 3) ?r else ?r)"
    using s np by (rule strip_code_fence_json)
  also have "\<dots> = w1 @ ?j @ w2"
  proof -
    have "suffix ''```'' ?r" by (rule suffixI) (rule refl)
    then show ?thesis by simp
  qed
  finally have "strip_code_fence (''```json'' @ w1 @ ?j @ w2 @ ''```'') = w1 @ ?j @ w2"
    by simp
  with assms(4) show ?thesis by (simp add: parse_json_safely_def)
qed

theorem parse_json_safely_roundtrip_witness:
  "is_dict linear_schedule
   \<and> prefix ''{'' (json_dumps list_env linear_schedule)
   \<and> list_all py_isspace ''\<newline>''
   \<and> json_loads list_env (''\<newline>'' @ json_dumps list_env linear_schedule @ ''\<newline>'')
       = Inr linear_schedule
   \<and> parse_json_safely (json_loads list_env)
        (''```json'' @ ''\<newline>'' @ json_dumps list_env linear_schedule @ ''\<newline>'' @ ''```'')
       = linear_schedule"
proof -
  have h1: "is_dict linear_schedule" by (simp add: linear_schedule_def)
  have h2: "prefix ''{'' (json_dumps list_env linear_schedule)" by code_simp
  have h3: "list_all py_isspace ''\<newline>''" by (simp add: py_isspace_def)
  have h4: "json_loads list_env (''\<newline>'' @ json_dumps list_env linear_schedule @ ''\<newline>'')
       = Inr linear_schedule" by code_simp
  from parse_json_safely_roundtrip[OF h1 h2 h3 h4] h1 h2 h3 h4 show ?thesis by blast
qed

section \<open>Reasoning markers\<close>

text \<open>
  C5, as amended. One pass of \<open>strip_think_tags\<close> removes, from left to right, each
  span that runs from an opening marker to the first closing marker behind it,
  whatever stands between them (further opening markers too), and goes on behind the
  span: if the opening marker after \<open>a\<close> is the first one in the text and the closing
  marker after \<open>b\<close> is the first one behind it, the result is \<open>a\<close> followed by the
  result for the rest. A text is left as it is exactly when it has no opening marker
  with a closing marker somewhere behind it. So stripping twice is the same as
  stripping once exactly when no such pair is left after the first pass. The copy in
  \<open>app.py\<close> is the same function.
\<close>

theorem strip_think_tags_spans:
  "(strip_think_tags s = s \<longleftrightarrow> \<not> (\<exists>a b c. s = a @ ''<think>'' @ b @ ''</think>'' @ c))
   \<and> (strip_think_tags (strip_think_tags s) = strip_think_tags s
        \<longleftrightarrow> \<not> (\<exists>a b c. strip_think_tags s = a @ ''<think>'' @ b @ ''</think>'' @ c))
   \<and> (\<not> sublist ''<think>'' (a @ ''<think'') \<and> \<not> sublist ''</think>'' (b @ ''</think'')
        \<longrightarrow> strip_think_tags (a @ ''<think>'' @ b @ ''</think>'' @ c) = a @ strip_think_tags c)
   \<and> app_strip_think_tags s = strip_think_tags s"
proof -
  have ne: "''<think>'' \<noteq> []" by simp
  have fixed: "strip_think_tags t = t \<longleftrightarrow> \<not> (\<exists>a b c. t = a @ ''<think>'' @ b @ ''</think>'' @ c)"
    for t
    using re_sub_span_fixed_iff[OF ne, of "''</think>''" t]
    unfolding strip_think_tags_def has_span_def .
  have first: "strip_think_tags (a @ ''<think>'' @ b @ ''</think>'' @ c) = a @ strip_think_tags c"
    if "\<not> sublist ''<think>'' (a @ ''<think'')" "\<not> sublist ''</think>'' (b @ ''</think'')"
  proof -
    have b1: "butlast ''<think>'' = ''<think''" and b2: "butlast ''</think>'' = ''</think''"
      by simp_all
    from that have "\<not> sublist ''<think>'' (a @ butlast ''<think>'')"
      "\<not> sublist ''</think>'' (b @ butlast ''</think>'')"
      unfolding b1 b2 by blast+
    from re_sub_span_first[OF ne this] show ?thesis
      unfolding strip_think_tags_def .
  qed
  have app: "app_strip_think_tags s = strip_think_tags s"
    by (simp add: app_strip_think_tags_def strip_think_tags_def)
  from fixed[of s] fixed[of "strip_think_tags s"] first app show ?thesis by blast
qed

theorem strip_think_tags_spans_witness:
  "\<not> sublist ''<think>'' (''x'' @ ''<think'')
   \<and> \<not> sublist ''</think>'' (''<think>y'' @ ''</think'')
   \<and> strip_think_tags (''x'' @ ''<think>'' @ ''<think>y'' @ ''</think>'' @ ''z<think>'')
       = ''x'' @ strip_think_tags ''z<think>''
   \<and> strip_think_tags ''z<think>'' = ''z<think>''"
proof -
  have h1: "\<not> sublist ''<think>'' (''x'' @ ''<think'')" by code_simp
  have h2: "\<not> sublist ''</think>'' (''<think>y'' @ ''</think'')" by code_simp
  have v: "strip_think_tags ''z<think>'' = ''z<think>''" by code_simp
  from strip_think_tags_spans[of _ "''x''" "''<think>y''" "''z<think>''"] h1 h2 v
  show ?thesis by blast
qed

text \<open>
  Stripping is not idempotent. When the span in the middle of this text is removed,
  what stood before and behind it joins into a new span, which a second pass removes.
\<close>

theorem strip_think_tags_twice_counterexample:
  "strip_think_tags ''<thi<think>x</think>nk>y</think>'' = ''<think>y</think>''
   \<and> strip_think_tags (strip_think_tags ''<thi<think>x</think>nk>y</think>'') = []"
  by code_simp

section \<open>The cleanup pass\<close>





end
